theory Spec2Isabelle
  imports Main "HOL-Library.Char_ord" "HOL-Library.List_Lexorder"
begin

section \<open>Package constants\<close>

definition APP_DEBUG :: string where
  "APP_DEBUG = ''APP_DEBUG''"

definition APP_LOG_LEVEL :: string where
  "APP_LOG_LEVEL = ''APP_LOG_LEVEL''"

text \<open>The list of tokens the schema's "Truthy value" rule accepts, in the order of the source.\<close>

definition TruthyValues :: "string list" where
  "TruthyValues = [''1'', ''t'', ''T'', ''TRUE'', ''true'', ''True'', ''0'', ''f'', ''F'', ''FALSE'']"

section \<open>Package config: the data model\<close>

text \<open>
  A validation rule is the capability \<open>Validate(value) error\<close>: it returns nil (\<open>None\<close>)
  or an error, kept here by its message. A Go map is a partial function. \<open>AppConfig\<close> is the
  store as the functions that only read it see it: under every name, the variable the pointer of
  that name leads to. The functions that write through the pointers (\<open>loadEnv\<close>, and
  \<open>Setup\<close> with it) work on the store with its pointers, \<open>PtrConfig\<close> below.
\<close>

type_synonym Rule = "string \<Rightarrow> string option"

record Variable =
  Value :: string
  DefaultValue :: string
  Description :: string
  Rules :: "string \<rightharpoonup> Rule"

record AppConfig =
  vars :: "string \<rightharpoonup> Variable"

text \<open>\<open>NewConfig(defaults)\<close>: a nil map is \<open>None\<close>. The store adopts the caller's map as it is.\<close>

definition NewConfig :: "(string \<rightharpoonup> Variable) option \<Rightarrow> AppConfig" where
  "NewConfig defaults =
     (let conf = \<lparr>vars = Map.empty\<rparr>
      in case defaults of None \<Rightarrow> conf | Some d \<Rightarrow> conf\<lparr>vars := d\<rparr>)"

definition Lookup :: "AppConfig \<Rightarrow> string \<Rightarrow> string \<times> bool" where
  "Lookup appConf name =
     (case vars appConf name of Some val \<Rightarrow> (Value val, True) | None \<Rightarrow> ('''', False))"

definition Get :: "AppConfig \<Rightarrow> string \<Rightarrow> string" where
  "Get appConf name = fst (Lookup appConf name)"

section \<open>Typed accessors\<close>

text \<open>
  \<open>strconv.ParseBool\<close> of the Go standard library: a switch over twelve literals, a syntax
  error (function name, input, reason) for everything else. The result is the pair
  \<open>(value, error)\<close> of the Go function.
\<close>

definition ParseBool :: "string \<Rightarrow> bool \<times> (string \<times> string \<times> string) option" where
  "ParseBool str =
     (if str \<in> set [''1'', ''t'', ''T'', ''true'', ''TRUE'', ''True''] then (True, None)
      else if str \<in> set [''0'', ''f'', ''F'', ''false'', ''FALSE'', ''False''] then (False, None)
      else (False, Some (''ParseBool'', str, ''invalid syntax'')))"

definition IsDebug :: "AppConfig \<Rightarrow> bool" where
  "IsDebug appConf = (let (debug, _) = ParseBool (Get appConf APP_DEBUG) in debug)"

text \<open>
  \<open>logrus.ParseLevel\<close>: a switch over the lower-cased level name; the error is kept by
  the level string it reports. \<open>strings.ToLower\<close> is a parameter of the model (it maps
  Unicode letters by the tables of the Go runtime); \<open>ToLower_ascii\<close> is the function on
  ASCII text, where every byte from A to Z moves to a to z and every other byte stays.
\<close>

datatype Level = PanicLevel | FatalLevel | ErrorLevel | WarnLevel | InfoLevel | DebugLevel | TraceLevel

definition ParseLevel :: "(string \<Rightarrow> string) \<Rightarrow> string \<Rightarrow> string + Level" where
  "ParseLevel ToLower lvl =
     (let s = ToLower lvl in
      if s = ''panic'' then Inr PanicLevel
      else if s = ''fatal'' then Inr FatalLevel
      else if s = ''error'' then Inr ErrorLevel
      else if s = ''warn'' \<or> s = ''warning'' then Inr WarnLevel
      else if s = ''info'' then Inr InfoLevel
      else if s = ''debug'' then Inr DebugLevel
      else if s = ''trace'' then Inr TraceLevel
      else Inl lvl)"

definition ToLower_ascii :: "string \<Rightarrow> string" where
  "ToLower_ascii s =
     map (\<lambda>c. case map_of (zip ''ABCDEFGHIJKLMNOPQRSTUVWXYZ'' ''abcdefghijklmnopqrstuvwxyz'') c of
                Some l \<Rightarrow> l
              | None \<Rightarrow> c) s"

definition LogrusLogLevel :: "(string \<Rightarrow> string) \<Rightarrow> AppConfig \<Rightarrow> Level" where
  "LogrusLogLevel ToLower appConf =
     (case ParseLevel ToLower (Get appConf APP_LOG_LEVEL) of
        Inl err \<Rightarrow> InfoLevel
      | Inr level \<Rightarrow> level)"

section \<open>The process environment and the override files\<close>

text \<open>
  The process environment is the ambient state \<open>loadEnv\<close> reads and \<open>godotenv.Overload\<close>
  writes. \<open>os.Getenv\<close> returns the empty string for a name that is not set. \<open>os.Setenv\<close>
  refuses an empty name, a name with \<open>=\<close> or NUL in it, and a value with NUL in it; the
  loader discards that refusal and goes on.
\<close>

type_synonym environ = "string \<rightharpoonup> string"

definition Getenv :: "environ \<Rightarrow> string \<Rightarrow> string" where
  "Getenv env key = (case env key of Some v \<Rightarrow> v | None \<Rightarrow> '''')"

definition setenv_ok :: "string \<Rightarrow> string \<Rightarrow> bool" where
  "setenv_ok key val \<longleftrightarrow>
     key \<noteq> '''' \<and> CHR ''='' \<notin> set key \<and> CHR 0x00 \<notin> set key \<and> CHR 0x00 \<notin> set val"

definition Setenv :: "string \<Rightarrow> string \<Rightarrow> environ \<Rightarrow> environ" where
  "Setenv key val env = (if setenv_ok key val then env(key \<mapsto> val) else env)"

text \<open>
  Reading and parsing one override file is a parameter of the model: \<open>readFile filename\<close> is
  the error of the read or the parse, or the assignments of the file in the order they are applied.
  \<open>Overload\<close> loads the files in the order given, every assignment replacing what the
  environment holds, and stops at the first file that fails; what earlier files have set stays.
\<close>

type_synonym file_reader = "string \<Rightarrow> string + (string \<times> string) list"

definition loadFile :: "file_reader \<Rightarrow> string \<Rightarrow> environ \<Rightarrow> string option \<times> environ" where
  "loadFile readFile filename env =
     (case readFile filename of
        Inl err \<Rightarrow> (Some err, env)
      | Inr envMap \<Rightarrow> (None, fold (\<lambda>(key, val). Setenv key val) envMap env))"

fun Overload_loop :: "file_reader \<Rightarrow> string list \<Rightarrow> environ \<Rightarrow> string option \<times> environ" where
  "Overload_loop readFile [] env = (None, env)"
| "Overload_loop readFile (filename # filenames) env =
     (case loadFile readFile filename env of
        (Some err, env') \<Rightarrow> (Some err, env')
      | (None, env') \<Rightarrow> Overload_loop readFile filenames env')"

definition filenamesOrDefault :: "string list \<Rightarrow> string list" where
  "filenamesOrDefault filenames = (if filenames = [] then [''.env''] else filenames)"

definition Overload :: "file_reader \<Rightarrow> string list \<Rightarrow> environ \<Rightarrow> string option \<times> environ" where
  "Overload readFile filenames env = Overload_loop readFile (filenamesOrDefault filenames) env"

section \<open>Resolution: loadEnv\<close>

text \<open>
  A \<open>range\<close> over a Go map visits every key once, in an order the runtime chooses. The order
  is an argument of every function that ranges over a map, and \<open>ranges m ks\<close> says that
  \<open>ks\<close> is such an order for \<open>m\<close>.
\<close>

definition ranges :: "('k \<rightharpoonup> 'v) \<Rightarrow> 'k list \<Rightarrow> bool" where
  "ranges m ks \<longleftrightarrow> distinct ks \<and> set ks = dom m"

text \<open>\<open>errors.Wrap(err, message)\<close>, by the text of the wrapped error.\<close>

definition Wrap :: "string \<Rightarrow> string \<Rightarrow> string" where
  "Wrap err message = message @ '': '' @ err"

text \<open>
  The store with its pointers, as \<open>loadEnv\<close> writes it: \<open>ptr_vars\<close> is the map from a name
  to a pointer, \<open>cells\<close> holds the variables the pointers lead to. One variable can stand
  under several names. \<open>deref\<close> is the store as its readers see it.
\<close>

record PtrConfig =
  ptr_vars :: "string \<rightharpoonup> nat"
  cells :: "nat \<rightharpoonup> Variable"

definition deref :: "PtrConfig \<Rightarrow> AppConfig" where
  "deref appConf =
     \<lparr>vars = (\<lambda>name. case ptr_vars appConf name of None \<Rightarrow> None | Some p \<Rightarrow> cells appConf p)\<rparr>"

text \<open>
  The assignment \<open>appConf.vars[confKey].Value = v\<close>: it writes the variable the pointer of
  \<open>confKey\<close> leads to, under whatever names that variable stands. Inside the range the key is
  present; for an absent key, or a pointer that leads to no variable (a nil pointer in Go), the
  model leaves the store as it is.
\<close>

definition set_Value :: "PtrConfig \<Rightarrow> string \<Rightarrow> string \<Rightarrow> PtrConfig" where
  "set_Value appConf confKey v =
     (case ptr_vars appConf confKey of
        None \<Rightarrow> appConf
      | Some p \<Rightarrow>
          (case cells appConf p of
             None \<Rightarrow> appConf
           | Some x \<Rightarrow> appConf\<lparr>cells := (cells appConf)(p \<mapsto> x\<lparr>Value := v\<rparr>)\<rparr>))"

fun loadEnv_loop :: "environ \<Rightarrow> string list \<Rightarrow> PtrConfig \<Rightarrow> PtrConfig" where
  "loadEnv_loop env [] appConf = appConf"
| "loadEnv_loop env (confKey # rest) appConf =
     (case ptr_vars appConf confKey of
        None \<Rightarrow> loadEnv_loop env rest appConf
      | Some p \<Rightarrow>
          (case cells appConf p of
             None \<Rightarrow> loadEnv_loop env rest appConf
           | Some confVar \<Rightarrow>
               (let appConf1 = set_Value appConf confKey (DefaultValue confVar);
                    val = Getenv env confKey;
                    appConf2 = (if val \<noteq> '''' then set_Value appConf1 confKey val else appConf1)
                in loadEnv_loop env rest appConf2)))"

definition loadEnv ::
  "file_reader \<Rightarrow> string list \<Rightarrow> string list \<Rightarrow> environ \<times> PtrConfig \<Rightarrow>
     string option \<times> environ \<times> PtrConfig" where
  "loadEnv readFile varOrder envfiles st =
     (let (env, appConf) = st;
          (err, env1) = (if envfiles \<noteq> [] then Overload readFile envfiles env else (None, env))
      in case err of
           Some e \<Rightarrow> (Some (Wrap e ''Failed to overload variables with envfile(s)''), env1, appConf)
         | None \<Rightarrow> (None, env1, loadEnv_loop env1 varOrder appConf))"

section \<open>Validation\<close>

text \<open>
  \<open>validation.Errors\<close> is a map from a name to an error: from a rule name to the message of
  the rule for one variable, and from the key of a variable to the errors of its rules for the
  store. A nil map is the empty map. \<open>Filter\<close> drops nil entries (there are none here) and
  returns nil for an empty map. Both ranges visit keys of the map they range over; for a key that
  is not in the map the loops of the model go on to the next key. In \<open>ValidationErrors\<close>
  the errors of a variable are filtered only when there is one, so \<open>Filter\<close> returns them.
\<close>

type_synonym Errors = "string \<rightharpoonup> string"

type_synonym AllErrors = "string \<rightharpoonup> Errors"

definition Filter :: "(string \<rightharpoonup> 'e) \<Rightarrow> (string \<rightharpoonup> 'e) option" where
  "Filter es = (if es = Map.empty then None else Some es)"

fun rules_loop :: "string \<Rightarrow> (string \<rightharpoonup> Rule) \<Rightarrow> string list \<Rightarrow> Errors \<Rightarrow> Errors" where
  "rules_loop val rules [] validationErrors = validationErrors"
| "rules_loop val rules (ruleName # rest) validationErrors =
     (case rules ruleName of
        None \<Rightarrow> rules_loop val rules rest validationErrors
      | Some rule \<Rightarrow>
          (case rule val of
             Some err \<Rightarrow> rules_loop val rules rest (validationErrors(ruleName \<mapsto> err))
           | None \<Rightarrow> rules_loop val rules rest validationErrors))"

definition var_key :: "string \<Rightarrow> string \<Rightarrow> string" where
  "var_key confKey val = confKey @ '' = '' @ val"

fun ValidationErrors_loop ::
  "(string \<Rightarrow> string list) \<Rightarrow> AppConfig \<Rightarrow> string list \<Rightarrow> AllErrors \<Rightarrow> AllErrors" where
  "ValidationErrors_loop ruleOrder appConf [] allErrors = allErrors"
| "ValidationErrors_loop ruleOrder appConf (confKey # rest) allErrors =
     (case vars appConf confKey of
        None \<Rightarrow> ValidationErrors_loop ruleOrder appConf rest allErrors
      | Some confVar \<Rightarrow>
          (let validationErrors =
                 rules_loop (Value confVar) (Rules confVar) (ruleOrder confKey) Map.empty
           in if validationErrors \<noteq> Map.empty
              then ValidationErrors_loop ruleOrder appConf rest
                     (case Filter validationErrors of
                        Some es \<Rightarrow> allErrors(var_key confKey (Value confVar) \<mapsto> es)
                      | None \<Rightarrow> allErrors)
              else ValidationErrors_loop ruleOrder appConf rest allErrors))"

definition ValidationErrors ::
  "string list \<Rightarrow> (string \<Rightarrow> string list) \<Rightarrow> AppConfig \<Rightarrow> AllErrors" where
  "ValidationErrors varOrder ruleOrder appConf =
     (let allErrors = ValidationErrors_loop ruleOrder appConf varOrder Map.empty
      in if allErrors \<noteq> Map.empty then allErrors else Map.empty)"

definition Validate ::
  "string list \<Rightarrow> (string \<Rightarrow> string list) \<Rightarrow> AppConfig \<Rightarrow> AllErrors option" where
  "Validate varOrder ruleOrder appConf =
     (let errs = ValidationErrors varOrder ruleOrder appConf
      in if errs \<noteq> Map.empty then Filter errs else None)"

text \<open>\<open>validation.Required\<close> on a string: an empty string is refused.\<close>

definition Required :: Rule where
  "Required val = (if val = '''' then Some ''cannot be blank'' else None)"

section \<open>Setup\<close>

text \<open>
  The error \<open>Setup\<close> returns is the wrapped load error or the validation errors. The state
  is the process environment and the store with its pointers; the two ranges over the store
  (resolution, then validation) have an order each, and validation reads the store that
  resolution has written.
\<close>

datatype setup_error = LoadFailure string | Invalid AllErrors

definition Setup ::
  "file_reader \<Rightarrow> string list \<Rightarrow> string list \<Rightarrow> (string \<Rightarrow> string list) \<Rightarrow> string list \<Rightarrow>
     environ \<times> PtrConfig \<Rightarrow> setup_error option \<times> environ \<times> PtrConfig" where
  "Setup readFile loadOrder validateOrder ruleOrder envfiles st =
     (case loadEnv readFile loadOrder envfiles st of
        (Some err, env1, appConf1) \<Rightarrow>
          (Some (LoadFailure (Wrap err ''Failed to set Application Configuration'')), env1, appConf1)
      | (None, env1, appConf1) \<Rightarrow>
          (map_option Invalid (Validate validateOrder ruleOrder (deref appConf1)), env1, appConf1))"

section \<open>Notions used to state the properties of the store\<close>

text \<open>
  What resolution makes of one variable, given the environment it reads: the value of the
  environment variable of that name when it is not empty, the default otherwise.
\<close>

definition resolve :: "environ \<Rightarrow> string \<Rightarrow> Variable \<Rightarrow> Variable" where
  "resolve env name var =
     var\<lparr>Value := (if Getenv env name \<noteq> '''' then Getenv env name else DefaultValue var)\<rparr>"

text \<open>
  The assignments of a list of override files, in the order they are applied. An assignment
  takes effect when the name is not empty and has no \<open>=\<close> and no NUL in it and the value has
  no NUL in it; any other assignment is refused by the operating system and changes nothing.
  What the files supply for a name is the value of the last assignment to that name that takes
  effect.
\<close>

definition file_values :: "file_reader \<Rightarrow> string list \<Rightarrow> (string \<times> string) list" where
  "file_values readFile envfiles =
     concat (map (\<lambda>f. case readFile f of Inr m \<Rightarrow> m | Inl _ \<Rightarrow> []) envfiles)"

definition takes_effect :: "string \<Rightarrow> string \<Rightarrow> bool" where
  "takes_effect name val \<longleftrightarrow>
     name \<noteq> [] \<and> CHR ''='' \<notin> set name \<and> CHR 0x00 \<notin> set name \<and> CHR 0x00 \<notin> set val"

definition supplied :: "(string \<times> string) list \<Rightarrow> string \<rightharpoonup> string" where
  "supplied kvs = map_of (rev (filter (\<lambda>(name, val). takes_effect name val) kvs))"

text \<open>
  The precedence the code has: a value of the override files that is not empty; the default when
  the files supply the empty string; with nothing from the files, the value of the environment
  when it is set and not empty, and the default otherwise.
\<close>

definition precedence :: "string option \<Rightarrow> string option \<Rightarrow> string \<Rightarrow> string" where
  "precedence fileValue envValue defaultValue =
     (case fileValue of
        Some v \<Rightarrow> if v \<noteq> '''' then v else defaultValue
      | None \<Rightarrow>
          (case envValue of
             Some v \<Rightarrow> if v \<noteq> '''' then v else defaultValue
           | None \<Rightarrow> defaultValue))"

text \<open>
  The precedence as the specification words it: the value of the override files when they supply
  one, else the environment value when it is not empty, else the default.
\<close>

definition claimed_precedence :: "string option \<Rightarrow> string \<Rightarrow> string \<Rightarrow> string" where
  "claimed_precedence fileValue envValue defaultValue =
     (case fileValue of
        Some v \<Rightarrow> v
      | None \<Rightarrow> if envValue \<noteq> '''' then envValue else defaultValue)"

text \<open>Stores with one variable, used where a property is run on a concrete input.\<close>

definition debug_store :: "string \<Rightarrow> AppConfig" where
  "debug_store tok =
     \<lparr>vars = [APP_DEBUG \<mapsto>
        \<lparr>Value = tok, DefaultValue = ''true'', Description = ''Debug mode'', Rules = Map.empty\<rparr>]\<rparr>"

definition level_store :: "string \<Rightarrow> AppConfig" where
  "level_store lvl =
     \<lparr>vars = [APP_LOG_LEVEL \<mapsto>
        \<lparr>Value = lvl, DefaultValue = ''debug'', Description = ''Level of logging'',
         Rules = Map.empty\<rparr>]\<rparr>"

definition port_var :: "string \<Rightarrow> Variable" where
  "port_var val =
     \<lparr>Value = val, DefaultValue = ''8080'',
      Description = ''TCP/IP Port where the application listens'', Rules = Map.empty\<rparr>"

text \<open>
  A file system with one readable override file; opening any other name fails the way
  \<open>os.Open\<close> reports a missing file.
\<close>

definition one_file :: "string \<Rightarrow> (string \<times> string) list \<Rightarrow> file_reader" where
  "one_file name kvs =
     (\<lambda>f. if f = name then Inr kvs else Inl (''open '' @ f @ '': no such file or directory''))"

definition no_rules :: "string \<Rightarrow> string list" where
  "no_rules = (\<lambda>confKey. [])"

text \<open>
  Stores with their pointers: the port variable under its name, and one variable with the default
  \<open>d\<close> that stands under the two names \<open>A\<close> and \<open>B\<close>.
\<close>

definition port_store :: PtrConfig where
  "port_store = \<lparr>ptr_vars = [''APP_PORT'' \<mapsto> 0], cells = [0 \<mapsto> port_var '''']\<rparr>"

definition shared_store :: PtrConfig where
  "shared_store =
     \<lparr>ptr_vars = [''A'' \<mapsto> 0, ''B'' \<mapsto> 0],
      cells = [0 \<mapsto> \<lparr>Value = '''', DefaultValue = ''d'', Description = ''shared'',
                       Rules = Map.empty\<rparr>]\<rparr>"

text \<open>\<open>validation.In(values...)\<close> on a string: an empty string passes, as does a listed one.\<close>

definition In_rule :: "string list \<Rightarrow> Rule" where
  "In_rule allowed val =
     (if val = '''' \<or> val \<in> set allowed then None else Some ''must be a valid value'')"

definition ValidEnvironments :: "string list" where
  "ValidEnvironments = [''dev'', ''test'', ''stage'', ''acceptance'', ''production'']"

text \<open>
  A store with two variables whose keys in the validation errors are the same string: the name
  \<open>A = \<close> with the empty value and the name \<open>A\<close> with the value \<open> = \<close>.
\<close>

definition collide_store :: AppConfig where
  "collide_store =
     \<lparr>vars = [''A = '' \<mapsto>
                \<lparr>Value = '''', DefaultValue = '''', Description = ''first'',
                 Rules = [''Required'' \<mapsto> Required]\<rparr>,
              ''A'' \<mapsto>
                \<lparr>Value = '' = '', DefaultValue = '' = '', Description = ''second'',
                 Rules = [''Valid environment'' \<mapsto> In_rule ValidEnvironments]\<rparr>]\<rparr>"

definition collide_rule_order :: "string \<Rightarrow> string list" where
  "collide_rule_order =
     (\<lambda>confKey. if confKey = ''A = '' then [''Required''] else [''Valid environment''])"

section \<open>Package logger: the data model\<close>

text \<open>
  A field of a log entry is a key with a scalar value. \<open>logrus.Fields\<close> is a Go map, a
  reference: \<open>NewLogger\<close> keeps the map it is given, and two loggers can hold the same map.
  The heap is the list of the field maps allocated so far, a reference is an index into it, and
  \<open>None\<close> is the nil map, which reads as the empty map.
\<close>

datatype field_value = VString string | VInt int | VBool bool

type_synonym Fields = "string \<rightharpoonup> field_value"

type_synonym heap = "Fields list"

type_synonym fields_ref = "nat option"

definition valid_ref :: "heap \<Rightarrow> fields_ref \<Rightarrow> bool" where
  "valid_ref h r = (case r of None \<Rightarrow> True | Some a \<Rightarrow> a < length h)"

definition read_map :: "heap \<Rightarrow> fields_ref \<Rightarrow> Fields" where
  "read_map h r =
     (case r of None \<Rightarrow> Map.empty | Some a \<Rightarrow> if a < length h then h ! a else Map.empty)"

text \<open>\<open>logrus.Fields{}\<close>: a new, empty map.\<close>

definition new_map :: "heap \<Rightarrow> heap \<times> nat" where
  "new_map h = (h @ [Map.empty], length h)"

text \<open>The statements \<open>m[key] = value\<close> and \<open>delete(m, key)\<close> on the map at an address.\<close>

definition map_assign :: "heap \<Rightarrow> nat \<Rightarrow> string \<Rightarrow> field_value \<Rightarrow> heap" where
  "map_assign h a key v = (if a < length h then h[a := (h ! a)(key \<mapsto> v)] else h)"

definition map_delete :: "heap \<Rightarrow> nat \<Rightarrow> string \<Rightarrow> heap" where
  "map_delete h a key = (if a < length h then h[a := (h ! a)(key := None)] else h)"

datatype gormLevel = gormSilent | gormError | gormWarn | gormInfo

record gormConfig =
  SlowThreshold :: int
  LogLevel :: gormLevel

text \<open>
  The logger. The \<open>FieldLogger\<close> it wraps is kept by its identity; \<open>SlowThreshold\<close> is a
  duration in nanoseconds.
\<close>

record Logger =
  log :: nat
  defaultFields :: fields_ref
  formatErrors :: bool
  gormConf :: gormConfig

definition isFormatErrors :: "environ \<Rightarrow> bool" where
  "isFormatErrors env = (let (devLog, _) = ParseBool (Getenv env ''LOG_FORMAT_ERRORS'') in devLog)"

definition NewLogger :: "environ \<Rightarrow> nat \<Rightarrow> fields_ref \<Rightarrow> Logger" where
  "NewLogger env lg fieldsRef =
     \<lparr>log = lg, defaultFields = fieldsRef, formatErrors = isFormatErrors env,
      gormConf = \<lparr>SlowThreshold = 200 * 1000000, LogLevel = gormInfo\<rparr>\<rparr>"

section \<open>NewComponentLogger\<close>

text \<open>
  The range over the parent's fields copies every entry into the new map; the order of the range
  is an argument, as for every range over a map.
\<close>

fun copy_fields :: "heap \<Rightarrow> fields_ref \<Rightarrow> string list \<Rightarrow> nat \<Rightarrow> heap" where
  "copy_fields h src [] newFields = h"
| "copy_fields h src (key # rest) newFields =
     (case read_map h src key of
        None \<Rightarrow> copy_fields h src rest newFields
      | Some v \<Rightarrow> copy_fields (map_assign h newFields key v) src rest newFields)"

definition NewComponentLogger ::
  "environ \<Rightarrow> string list \<Rightarrow> heap \<Rightarrow> Logger \<Rightarrow> string \<Rightarrow> heap \<times> Logger" where
  "NewComponentLogger env fieldOrder h l componentName =
     (let (h1, newFields) = new_map h;
          h2 = copy_fields h1 (defaultFields l) fieldOrder newFields;
          h3 = map_assign h2 newFields ''component'' (VString componentName);
          newLogger = NewLogger env (log l) (Some newFields)
      in (h3, newLogger\<lparr>gormConf :=
                (gormConf newLogger)\<lparr>SlowThreshold := SlowThreshold (gormConf l),
                                      LogLevel := LogLevel (gormConf l)\<rparr>\<rparr>))"

section \<open>WithError\<close>

text \<open>
  An error value, by what the logger asks of it: the message of \<open>Error()\<close>, the text
  \<open>fmt.Sprintf("%+v", err)\<close> prints, and the error \<open>errors.Unwrap\<close> returns (\<open>None\<close> for an
  error with no \<open>Unwrap\<close> method, or one that returns nil).
\<close>

datatype go_error = GoError (err_Error: string) (err_PlusV: string) (err_Unwrap: "go_error option")

text \<open>
  The errors of \<open>github.com/pkg/errors\<close>: \<open>errors.New\<close> records the stack of its caller and
  prints it after the message; \<open>errors.Wrap\<close> is a message layer inside a stack layer. The
  printed stack is an argument.
\<close>

definition errors_New :: "string \<Rightarrow> string \<Rightarrow> go_error" where
  "errors_New message stack = GoError message (message @ stack) None"

definition withMessage :: "go_error \<Rightarrow> string \<Rightarrow> go_error" where
  "withMessage cause message =
     GoError (message @ '': '' @ err_Error cause) (err_PlusV cause @ [CHR 0x0A] @ message)
       (Some cause)"

definition withStack :: "go_error \<Rightarrow> string \<Rightarrow> go_error" where
  "withStack err stack = GoError (err_Error err) (err_PlusV err @ stack) (Some err)"

definition errors_Wrap :: "go_error \<Rightarrow> string \<Rightarrow> string \<Rightarrow> go_error" where
  "errors_Wrap err message stack = withStack (withMessage err message) stack"

text \<open>
  \<open>regexp.MustCompile(`\r?\n`).ReplaceAllString(str, " --- ")\<close>: scanning from the left, a
  carriage return followed by a line feed, or a line feed alone, is replaced.
\<close>

fun replace_newlines :: "string \<Rightarrow> string" where
  "replace_newlines [] = []"
| "replace_newlines (c # cs) =
     (if c = CHR 0x0D \<and> cs \<noteq> [] \<and> hd cs = CHR 0x0A then '' --- '' @ replace_newlines (tl cs)
      else if c = CHR 0x0A then '' --- '' @ replace_newlines cs
      else c # replace_newlines cs)"

text \<open>
  \<open>strings.ReplaceAll(s, old, new)\<close> for an \<open>old\<close> of one byte, as \<open>parseError\<close>
  calls it: from the left, every occurrence of the byte is replaced by \<open>new\<close>.
\<close>

fun ReplaceAll_byte :: "string \<Rightarrow> char \<Rightarrow> string \<Rightarrow> string" where
  "ReplaceAll_byte [] old new = []"
| "ReplaceAll_byte (c # cs) old new =
     (if c = old then new @ ReplaceAll_byte cs old new else c # ReplaceAll_byte cs old new)"

text \<open>\<open>strings.ReplaceAll(str, "\t", "")\<close>.\<close>

definition remove_tabs :: "string \<Rightarrow> string" where
  "remove_tabs str = ReplaceAll_byte str (CHR 0x09) ''''"

definition parseError :: "Logger \<Rightarrow> go_error option \<Rightarrow> string" where
  "parseError l err =
     (case err of
        None \<Rightarrow> ''<nil>''
      | Some e \<Rightarrow>
          (case err_Unwrap e of
             None \<Rightarrow> err_Error e
           | Some unwrapped \<Rightarrow>
               if formatErrors l
               then (let str = err_PlusV unwrapped;
                         str = replace_newlines str
                     in remove_tabs str)
               else err_PlusV unwrapped))"

text \<open>
  The data of the entry \<open>WithError\<close> returns: a copy of the default fields with the field
  \<open>error\<close> set.
\<close>

definition WithError :: "heap \<Rightarrow> Logger \<Rightarrow> go_error option \<Rightarrow> Fields" where
  "WithError h l err = (read_map h (defaultFields l))(''error'' \<mapsto> VString (parseError l err))"

section \<open>Notions used to state the properties of the logger\<close>

text \<open>\<open>strings.Join(elems, sep)\<close>.\<close>

fun Join :: "string list \<Rightarrow> string \<Rightarrow> string" where
  "Join [] sep = []"
| "Join [x] sep = x"
| "Join (x # y # ys) sep = x @ sep @ Join (y # ys) sep"

text \<open>
  The lines of a text as the specification reads them: the text is cut at every line feed, and a
  line that ends before a line feed loses one carriage return at its end.
\<close>

fun cut_lines :: "string \<Rightarrow> string list" where
  "cut_lines [] = [[]]"
| "cut_lines (c # cs) =
     (if c = CHR 0x0A then [] # cut_lines cs
      else (case cut_lines cs of [] \<Rightarrow> [[c]] | l # ls \<Rightarrow> (c # l) # ls))"

definition drop_cr :: "string \<Rightarrow> string" where
  "drop_cr l = (if l \<noteq> [] \<and> last l = CHR 0x0D then butlast l else l)"

definition newline_pieces :: "string \<Rightarrow> string list" where
  "newline_pieces s = map drop_cr (butlast (cut_lines s)) @ [last (cut_lines s)]"

text \<open>
  The text on one line, as the specification words it: every newline sequence replaced by
  \<open> --- \<close>, every tab removed.
\<close>

definition one_line :: "string \<Rightarrow> string" where
  "one_line s = filter (\<lambda>c. c \<noteq> CHR 0x09) (Join (newline_pieces s) '' --- '')"

text \<open>
  The entries \<open>child\<close> has and \<open>parent\<close> has not: what a derived map adds to the map it
  is derived from.
\<close>

definition added_entries :: "Fields \<Rightarrow> Fields \<Rightarrow> (string \<times> field_value) set" where
  "added_entries parent child = {(k, v). child k = Some v \<and> parent k \<noteq> Some v}"

text \<open>A logger over the map at an address, and the error of the repository's logger test.\<close>

definition logger_at :: "nat \<Rightarrow> bool \<Rightarrow> Logger" where
  "logger_at a fmt =
     \<lparr>log = 0, defaultFields = Some a, formatErrors = fmt,
      gormConf = \<lparr>SlowThreshold = 200 * 1000000, LogLevel = gormInfo\<rparr>\<rparr>"

definition getError_stack :: string where
  "getError_stack =
     [CHR 0x0A] @ ''logger.getError'' @ [CHR 0x0A, CHR 0x09] @ ''logger_test.go:135''"

definition getSomething :: go_error where
  "getSomething =
     errors_Wrap (errors_New ''Test Error'' getError_stack) ''Cannot get something''
       ([CHR 0x0A] @ ''logger.getSomething'' @ [CHR 0x0A, CHR 0x09] @ ''logger_test.go:139'')"

text \<open>The fields of the repository's logger test, and a map that has a component already.\<close>

definition test_fields :: Fields where
  "test_fields = [''Field1'' \<mapsto> VString ''Value1'', ''Field2'' \<mapsto> VInt 23, ''Field3'' \<mapsto> VBool True]"

definition api_fields :: Fields where
  "api_fields = [''component'' \<mapsto> VString ''api'']"

section \<open>CreateSampleFile\<close>

text \<open>
  The file system is a map from a file name to the text of the file. What the operating system
  can refuse is a parameter: the error of opening a name for writing, the error of each write
  into the buffer (counted from 0), the error of the final flush, and the text that is in the
  file when a write or the flush has failed (the file is truncated when it is opened). The
  deferred close of the file only prints a message when it fails, and is left out.
\<close>

type_synonym files = "string \<rightharpoonup> string"












section \<open>Notions used to state the properties of the sample file\<close>













section \<open>Lookup and Get\<close>

text \<open>
  Claim C4. For a name that is not registered in the store, \<open>Lookup\<close> returns the pair of the
  empty string and false, and \<open>Get\<close> returns the empty string; for every name, \<open>Get\<close> is the
  value component of \<open>Lookup\<close>. Both are total functions whose results carry no error.
\<close>

theorem Lookup_unregistered:
  "(vars appConf name = None \<longrightarrow>
      Lookup appConf name = ('''', False) \<and> Get appConf name = '''') \<and>
   Get appConf name = fst (Lookup appConf name)"
  by (simp add: Lookup_def Get_def)

theorem Lookup_unregistered_witness:
  "vars \<lparr>vars = [''APP_PORT'' \<mapsto> port_var ''8080'']\<rparr> ''Som-var-which-is-not-set'' = None \<and>
   Lookup \<lparr>vars = [''APP_PORT'' \<mapsto> port_var ''8080'']\<rparr> ''Som-var-which-is-not-set'' = ('''', False) \<and>
   Get \<lparr>vars = [''APP_PORT'' \<mapsto> port_var ''8080'']\<rparr> ''Som-var-which-is-not-set'' = ''''"
  using Lookup_unregistered [of "\<lparr>vars = [''APP_PORT'' \<mapsto> port_var ''8080'']\<rparr>"
      "''Som-var-which-is-not-set''"]
  by simp

section \<open>The debug flag\<close>

text \<open>
  Claim C5. When \<open>APP_DEBUG\<close> resolves to one of 1, t, T, TRUE, true, True, \<open>IsDebug\<close> is
  true; when it resolves to one of 0, f, F, FALSE, \<open>IsDebug\<close> is false. The tokens are matched
  as literals: \<open>IsDebug\<close> is true for the six literals and for nothing else, so no other
  spelling of them (another mix of cases) is folded onto them. Every token of \<open>TruthyValues\<close>
  is parsed without an error.
\<close>

theorem IsDebug_tokens:
  "(Get appConf APP_DEBUG \<in> {''1'', ''t'', ''T'', ''TRUE'', ''true'', ''True''} \<longrightarrow>
      IsDebug appConf) \<and>
   (Get appConf APP_DEBUG \<in> {''0'', ''f'', ''F'', ''FALSE''} \<longrightarrow> \<not> IsDebug appConf) \<and>
   (IsDebug appConf \<longleftrightarrow>
      Get appConf APP_DEBUG \<in> {''1'', ''t'', ''T'', ''TRUE'', ''true'', ''True''}) \<and>
   (Get appConf APP_DEBUG \<in> set TruthyValues \<longrightarrow>
      snd (ParseBool (Get appConf APP_DEBUG)) = None)"
  by (auto simp: IsDebug_def ParseBool_def TruthyValues_def split: prod.splits)

theorem IsDebug_tokens_witness:
  "Get (debug_store ''T'') APP_DEBUG \<in> {''1'', ''t'', ''T'', ''TRUE'', ''true'', ''True''} \<and>
   IsDebug (debug_store ''T'') \<and>
   Get (debug_store ''F'') APP_DEBUG \<in> {''0'', ''f'', ''F'', ''FALSE''} \<and>
   \<not> IsDebug (debug_store ''F'') \<and>
   \<not> IsDebug (debug_store ''tRUE'') \<and>
   Get (debug_store ''F'') APP_DEBUG \<in> set TruthyValues \<and>
   snd (ParseBool (Get (debug_store ''F'') APP_DEBUG)) = None"
  using IsDebug_tokens [of "debug_store ''T''"] IsDebug_tokens [of "debug_store ''F''"]
    IsDebug_tokens [of "debug_store ''tRUE''"]
  by (simp add: debug_store_def Get_def Lookup_def TruthyValues_def)

section \<open>The log level\<close>

text \<open>
  Claim C8. Decoding the log level never fails: \<open>LogrusLogLevel\<close> is a total function into the
  levels. When the resolved \<open>APP_LOG_LEVEL\<close> parses as a level, that level is returned; when
  \<open>ParseLevel\<close> returns an error, which is the case for every string that does not lower-case
  to one of the eight level names, the result is the info level.
\<close>

theorem LogrusLogLevel_never_errors:
  "(ParseLevel ToLower (Get appConf APP_LOG_LEVEL) = Inr level \<longrightarrow>
      LogrusLogLevel ToLower appConf = level) \<and>
   ((\<exists>err. ParseLevel ToLower (Get appConf APP_LOG_LEVEL) = Inl err) \<longrightarrow>
      LogrusLogLevel ToLower appConf = InfoLevel) \<and>
   (ToLower (Get appConf APP_LOG_LEVEL) \<notin>
      {''panic'', ''fatal'', ''error'', ''warn'', ''warning'', ''info'', ''debug'', ''trace''} \<longrightarrow>
      (\<exists>err. ParseLevel ToLower (Get appConf APP_LOG_LEVEL) = Inl err))"
  by (auto simp: LogrusLogLevel_def ParseLevel_def Let_def)

theorem LogrusLogLevel_never_errors_witness:
  "ParseLevel ToLower_ascii (Get (level_store ''Warn'') APP_LOG_LEVEL) = Inr WarnLevel \<and>
   LogrusLogLevel ToLower_ascii (level_store ''Warn'') = WarnLevel \<and>
   ToLower_ascii (Get (level_store ''kernel_panic'') APP_LOG_LEVEL) \<notin>
      {''panic'', ''fatal'', ''error'', ''warn'', ''warning'', ''info'', ''debug'', ''trace''} \<and>
   (\<exists>err. ParseLevel ToLower_ascii (Get (level_store ''kernel_panic'') APP_LOG_LEVEL) = Inl err) \<and>
   LogrusLogLevel ToLower_ascii (level_store ''kernel_panic'') = InfoLevel"
  using LogrusLogLevel_never_errors [of ToLower_ascii "level_store ''Warn''" WarnLevel]
    LogrusLogLevel_never_errors [of ToLower_ascii "level_store ''kernel_panic''"]
  by (simp add: level_store_def Get_def Lookup_def ParseLevel_def ToLower_ascii_def)

section \<open>NewConfig\<close>

text \<open>
  The store does not reset the variables of the schema: a value the caller wrote into the
  schema is the value \<open>Get\<close> returns before any resolution.
\<close>

theorem NewConfig_keeps_Value_counterexample:
  "\<not> (Get (NewConfig (Some [''APP_PORT'' \<mapsto> port_var ''9090''])) ''APP_PORT'' = '''')"
  by (simp add: NewConfig_def Get_def Lookup_def port_var_def)

text \<open>
  Claim C9, amended. \<open>NewConfig\<close> returns a store whose variables are the entries of the
  schema as the caller passed them: before resolution every variable has the value its schema
  entry carries, which is the empty string when the caller left the value unset. A nil schema and
  an empty schema are valid and give a store with no registered variable.
\<close>

theorem NewConfig_adopts_schema:
  "vars (NewConfig (Some schema)) = schema \<and>
   Lookup (NewConfig (Some schema)) name =
     (case schema name of Some v \<Rightarrow> (Value v, True) | None \<Rightarrow> ('''', False)) \<and>
   (\<forall>v. schema name = Some v \<and> Value v = '''' \<longrightarrow> Get (NewConfig (Some schema)) name = '''') \<and>
   vars (NewConfig None) = Map.empty \<and>
   vars (NewConfig (Some Map.empty)) = Map.empty \<and>
   Lookup (NewConfig None) name = ('''', False)"
  by (simp add: NewConfig_def Lookup_def Get_def)

theorem NewConfig_adopts_schema_witness:
  "[''APP_PORT'' \<mapsto> port_var ''''] ''APP_PORT'' = Some (port_var '''') \<and>
   Value (port_var '''') = '''' \<and>
   Get (NewConfig (Some [''APP_PORT'' \<mapsto> port_var ''''])) ''APP_PORT'' = '''' \<and>
   vars (NewConfig (Some [''APP_PORT'' \<mapsto> port_var ''9090''])) = [''APP_PORT'' \<mapsto> port_var ''9090'']"
  using NewConfig_adopts_schema [of "[''APP_PORT'' \<mapsto> port_var '''']" "''APP_PORT''"]
    NewConfig_adopts_schema [of "[''APP_PORT'' \<mapsto> port_var ''9090'']" "''APP_PORT''"]
  by (simp add: port_var_def)
section \<open>Resolution and the override files\<close>

lemma resolve_resolve: "resolve env a (resolve env b v) = resolve env a v"
  by (simp add: resolve_def)

lemma loadEnv_step:
  assumes "ptr_vars appConf k = Some p" and "cells appConf p = Some confVar"
  shows "(let appConf1 = set_Value appConf k (DefaultValue confVar);
              val = Getenv env k
          in (if val \<noteq> '''' then set_Value appConf1 k val else appConf1)) =
         appConf\<lparr>cells := (cells appConf)(p \<mapsto> resolve env k confVar)\<rparr>"
  using assms by (auto simp: Let_def set_Value_def resolve_def)

lemma loadEnv_loop_ptr_vars: "ptr_vars (loadEnv_loop env ks appConf) = ptr_vars appConf"
proof (induction ks arbitrary: appConf)
  case Nil
  then show ?case by simp
next
  case (Cons k ks)
  show ?case
  proof (cases "ptr_vars appConf k")
    case None
    then show ?thesis by (simp add: Cons.IH)
  next
    case (Some p)
    show ?thesis
    proof (cases "cells appConf p")
      case None
      with Some show ?thesis by (simp add: Cons.IH)
    next
      case (Some confVar)
      with \<open>ptr_vars appConf k = Some p\<close> show ?thesis
        by (simp add: Cons.IH set_Value_def Let_def)
    qed
  qed
qed

text \<open>
  What the loop leaves in one variable: the variable is resolved under the last of its names in
  the order of the range, and is untouched when none of its names is ranged over.
\<close>

lemma loadEnv_loop_cells:
  "cells (loadEnv_loop env ks appConf) p =
     (case filter (\<lambda>k. ptr_vars appConf k = Some p) ks of
        [] \<Rightarrow> cells appConf p
      | n # ns \<Rightarrow> map_option (resolve env (last (n # ns))) (cells appConf p))"
proof (induction ks arbitrary: appConf)
  case Nil
  then show ?case by simp
next
  case (Cons k ks)
  show ?case
  proof (cases "ptr_vars appConf k")
    case None
    then show ?thesis by (simp add: Cons.IH)
  next
    case q: (Some q)
    show ?thesis
    proof (cases "cells appConf q")
      case None
      with q have "loadEnv_loop env (k # ks) appConf = loadEnv_loop env ks appConf"
        by simp
      moreover have "map_option f (cells appConf p) = cells appConf p" if "q = p" for f
        using that None by simp
      ultimately show ?thesis
        using q None by (auto simp: Cons.IH split: list.splits)
    next
      case (Some confVar)
      let ?c = "appConf\<lparr>cells := (cells appConf)(q \<mapsto> resolve env k confVar)\<rparr>"
      have run: "loadEnv_loop env (k # ks) appConf = loadEnv_loop env ks ?c"
        using q Some loadEnv_step [OF q Some, of env] by (simp add: Let_def)
      have pv: "ptr_vars ?c = ptr_vars appConf" by simp
      have ih: "cells (loadEnv_loop env ks ?c) p =
          (case filter (\<lambda>k. ptr_vars appConf k = Some p) ks of
             [] \<Rightarrow> cells ?c p
           | n # ns \<Rightarrow> map_option (resolve env (last (n # ns))) (cells ?c p))"
        using Cons.IH [of ?c] by (simp only: pv)
      show ?thesis
      proof (cases "q = p")
        case True
        then show ?thesis
          unfolding run ih using q Some by (simp add: resolve_resolve split: list.splits)
      next
        case False
        then show ?thesis
          unfolding run ih using q by (simp split: list.splits)
      qed
    qed
  qed
qed

lemma filter_only:
  "distinct ks \<Longrightarrow> n \<in> set ks \<Longrightarrow> (\<forall>k \<in> set ks. P k \<longleftrightarrow> k = n) \<Longrightarrow> filter P ks = [n]"
proof (induction ks)
  case Nil
  then show ?case by simp
next
  case (Cons k ks)
  show ?case
  proof (cases "k = n")
    case True
    with Cons.prems have "n \<notin> set ks" and "\<forall>k \<in> set ks. \<not> P k" by auto
    then have "filter P ks = []" by (simp add: filter_empty_conv)
    with True Cons.prems show ?thesis by simp
  next
    case False
    with Cons.prems have "distinct ks" "n \<in> set ks" "\<forall>k \<in> set ks. P k \<longleftrightarrow> k = n"
      by simp_all
    then have "filter P ks = [n]" by (rule Cons.IH)
    with False Cons.prems show ?thesis by simp
  qed
qed

lemma loadEnv_loop_own:
  assumes "ranges (ptr_vars appConf) ks"
    and "ptr_vars appConf name = Some p" and "cells appConf p = Some var"
    and "\<forall>other. ptr_vars appConf other = Some p \<longrightarrow> other = name"
  shows "vars (deref (loadEnv_loop env ks appConf)) name = Some (resolve env name var)"
proof -
  from assms(1,2) have d: "distinct ks" and n: "name \<in> set ks"
    by (auto simp: ranges_def)
  have "\<forall>k \<in> set ks. ptr_vars appConf k = Some p \<longleftrightarrow> k = name"
    using assms(2,4) by blast
  with d n have "filter (\<lambda>k. ptr_vars appConf k = Some p) ks = [name]"
    by (rule filter_only [where P = "\<lambda>k. ptr_vars appConf k = Some p"])
  then have "cells (loadEnv_loop env ks appConf) p = Some (resolve env name var)"
    using assms(3) by (simp add: loadEnv_loop_cells)
  then show ?thesis
    using assms(2) by (simp add: deref_def loadEnv_loop_ptr_vars)
qed

lemma setenv_ok_takes_effect: "setenv_ok k v \<longleftrightarrow> takes_effect k v"
  by (simp add: setenv_ok_def takes_effect_def)

lemma fold_Setenv:
  "fold (\<lambda>(key, val). Setenv key val) kvs env = env ++ supplied kvs"
proof (induction kvs arbitrary: env)
  case Nil
  then show ?case by (simp add: supplied_def)
next
  case (Cons kv kvs)
  obtain k v where kv: "kv = (k, v)" by (cases kv)
  show ?case
  proof (cases "setenv_ok k v")
    case True
    have "supplied (kv # kvs) = [k \<mapsto> v] ++ supplied kvs"
      using True by (simp add: supplied_def kv setenv_ok_takes_effect)
    moreover have "Setenv k v env = env ++ [k \<mapsto> v]"
      using True by (simp add: Setenv_def)
    ultimately have "fold (\<lambda>(key, val). Setenv key val) (kv # kvs) env = (env ++ [k \<mapsto> v]) ++ supplied kvs"
      by (simp add: Cons.IH kv del: map_add_upd)
    also have "\<dots> = env ++ supplied (kv # kvs)"
      using \<open>supplied (kv # kvs) = [k \<mapsto> v] ++ supplied kvs\<close> by (simp only: map_add_assoc)
    finally show ?thesis .
  next
    case False
    then have "supplied (kv # kvs) = supplied kvs" and "Setenv k v env = env"
      by (simp_all add: supplied_def kv Setenv_def setenv_ok_takes_effect)
    then show ?thesis by (simp add: Cons.IH kv)
  qed
qed

lemma supplied_append: "supplied (xs @ ys) = supplied xs ++ supplied ys"
  by (simp add: supplied_def)

lemma supplied_Some:
  "supplied kvs name = Some v \<Longrightarrow> (name, v) \<in> set kvs \<and> takes_effect name v"
  by (auto simp: supplied_def dest: map_of_SomeD)

lemma Overload_loop_ok:
  "\<forall>f \<in> set envfiles. \<exists>m. readFile f = Inr m \<Longrightarrow>
   Overload_loop readFile envfiles env = (None, env ++ supplied (file_values readFile envfiles))"
proof (induction envfiles arbitrary: env)
  case Nil
  then show ?case by (simp add: file_values_def supplied_def)
next
  case (Cons f fs)
  then obtain m where m: "readFile f = Inr m" by auto
  have fv: "file_values readFile (f # fs) = m @ file_values readFile fs"
    by (simp add: file_values_def m)
  have "Overload_loop readFile (f # fs) env = Overload_loop readFile fs (env ++ supplied m)"
    by (simp add: loadFile_def m fold_Setenv)
  also have "\<dots> = (None, (env ++ supplied m) ++ supplied (file_values readFile fs))"
    using Cons by simp
  finally show ?case
    by (simp only: fv supplied_append map_add_assoc)
qed

lemma Overload_loop_fails:
  "f \<in> set envfiles \<Longrightarrow> readFile f = Inl e \<Longrightarrow>
   \<exists>msg env'. Overload_loop readFile envfiles env = (Some msg, env') \<and>
     (\<exists>g \<in> set envfiles. readFile g = Inl msg)"
proof (induction envfiles arbitrary: env)
  case Nil
  then show ?case by simp
next
  case (Cons g gs)
  show ?case
  proof (cases "readFile g")
    case (Inl a)
    then show ?thesis by (simp add: loadFile_def)
  next
    case (Inr m)
    with Cons.prems have "f \<in> set gs" by auto
    from Cons.IH [where env = "fold (\<lambda>(key, val). Setenv key val) m env", OF this Cons.prems(2)]
    show ?thesis
      by (auto simp: loadFile_def Inr)
  qed
qed

lemma loadEnv_ok:
  assumes "\<forall>f \<in> set envfiles. \<exists>m. readFile f = Inr m"
  shows "loadEnv readFile varOrder envfiles (env, appConf) =
           (None, env ++ supplied (file_values readFile envfiles),
            loadEnv_loop (env ++ supplied (file_values readFile envfiles)) varOrder appConf)"
proof (cases "envfiles = []")
  case True
  then show ?thesis by (simp add: loadEnv_def file_values_def supplied_def)
next
  case False
  then show ?thesis
    using Overload_loop_ok [OF assms, of env]
    by (simp add: loadEnv_def Overload_def filenamesOrDefault_def)
qed

lemma loadEnv_fails:
  assumes "f \<in> set envfiles" and "readFile f = Inl e"
  shows "\<exists>msg env'. loadEnv readFile varOrder envfiles (env, appConf) =
           (Some (''Failed to overload variables with envfile(s): '' @ msg), env', appConf) \<and>
           (\<exists>g \<in> set envfiles. readFile g = Inl msg)"
proof -
  from assms have ne: "envfiles \<noteq> []" by auto
  from Overload_loop_fails [where readFile = readFile and f = f and e = e and env = env, OF assms]
  obtain msg env'
    where ov: "Overload_loop readFile envfiles env = (Some msg, env')"
      and g: "\<exists>g \<in> set envfiles. readFile g = Inl msg" by blast
  have "loadEnv readFile varOrder envfiles (env, appConf) =
      (Some (''Failed to overload variables with envfile(s): '' @ msg), env', appConf)"
    using ne ov by (simp add: loadEnv_def Overload_def filenamesOrDefault_def Wrap_def)
  with g show ?thesis by blast
qed

text \<open>A \<open>Setup\<close> whose load did not fail has read every override file.\<close>

lemma Setup_loaded:
  assumes run: "Setup readFile loadOrder validateOrder ruleOrder envfiles (env, appConf) =
                    (err, env', appConf')"
    and loaded: "\<forall>msg. err \<noteq> Some (LoadFailure msg)"
  shows "env' = env ++ supplied (file_values readFile envfiles) \<and>
         appConf' = loadEnv_loop env' loadOrder appConf"
proof -
  have all: "\<forall>f \<in> set envfiles. \<exists>m. readFile f = Inr m"
  proof (rule ccontr)
    assume "\<not> ?thesis"
    then obtain f where "f \<in> set envfiles" and "\<nexists>m. readFile f = Inr m" by auto
    then obtain e where "readFile f = Inl e" by (cases "readFile f") auto
    from loadEnv_fails [where readFile = readFile and f = f and e = e and env = env
        and varOrder = loadOrder and appConf = appConf, OF \<open>f \<in> set envfiles\<close> this]
    obtain msg env1 where "loadEnv readFile loadOrder envfiles (env, appConf) =
        (Some (''Failed to overload variables with envfile(s): '' @ msg), env1, appConf)"
      by blast
    with run have "\<exists>m. err = Some (LoadFailure m)"
      by (auto simp: Setup_def)
    with loaded show False by blast
  qed
  from loadEnv_ok [OF all, of loadOrder env appConf] run
  show ?thesis
    by (auto simp: Setup_def)
qed

lemma Getenv_merged:
  "Getenv (env ++ files) name =
     (case files name of Some v \<Rightarrow> v | None \<Rightarrow> (case env name of Some v \<Rightarrow> v | None \<Rightarrow> ''''))"
  by (simp add: Getenv_def map_add_def split: option.splits)

lemma resolve_precedence:
  "resolve (env ++ files) name var =
     var\<lparr>Value := precedence (files name) (env name) (DefaultValue var)\<rparr>"
  by (simp add: resolve_def Getenv_merged precedence_def split: option.splits)

text \<open>
  The store holds pointers, so one variable can stand under two names. The loop writes it once
  for each of its names, and both names end with the value of the name ranged over last: with
  \<open>A=1\<close> in the environment and nothing for \<open>B\<close>, the name \<open>A\<close> reads the default when
  \<open>B\<close> comes last, and \<open>B\<close> reads \<open>1\<close> when \<open>A\<close> comes last.
\<close>

lemma loadEnv_shared_variable:
  "Get (deref (loadEnv_loop [''A'' \<mapsto> ''1''] [''A'', ''B''] shared_store)) ''A'' = ''d'' \<and>
   Get (deref (loadEnv_loop [''A'' \<mapsto> ''1''] [''A'', ''B''] shared_store)) ''B'' = ''d'' \<and>
   Get (deref (loadEnv_loop [''A'' \<mapsto> ''1''] [''B'', ''A''] shared_store)) ''A'' = ''1'' \<and>
   Get (deref (loadEnv_loop [''A'' \<mapsto> ''1''] [''B'', ''A''] shared_store)) ''B'' = ''1''"
  by (simp add: shared_store_def set_Value_def Getenv_def deref_def Get_def Lookup_def)

text \<open>
  An assignment of a file that the operating system refuses changes nothing: with a NUL in the
  value the file gives for \<open>APP_PORT\<close>, the ambient value 5050 stands and is the resolved
  value.
\<close>

lemma Setup_refused_assignment:
  "supplied (file_values (one_file ''test.env'' [(''APP_PORT'', ''90'' @ [CHR 0x00] @ ''90'')])
     [''test.env'']) ''APP_PORT'' = None \<and>
   Get (deref (snd (snd (Setup (one_file ''test.env'' [(''APP_PORT'', ''90'' @ [CHR 0x00] @ ''90'')])
      [''APP_PORT''] [''APP_PORT''] no_rules [''test.env'']
      ([''APP_PORT'' \<mapsto> ''5050''], port_store))))) ''APP_PORT'' = ''5050''"
  by (simp add: Setup_def loadEnv_def Overload_def filenamesOrDefault_def loadFile_def one_file_def
      Setenv_def setenv_ok_def port_store_def port_var_def set_Value_def Getenv_def Validate_def
      ValidationErrors_def no_rules_def Get_def Lookup_def deref_def supplied_def takes_effect_def
      file_values_def)

text \<open>
  The specification's precedence fails when an override file assigns the empty string: the
  file's assignment replaces the ambient value, and the empty result makes \<open>loadEnv\<close> keep the
  default. With \<open>APP_PORT=\<close> in the file, 5050 in the environment and the default 8080, the
  resolved value is 8080: neither the file's value (the empty string) nor, if an empty
  assignment is read as no value, the environment's.
\<close>

theorem Setup_precedence_counterexample:
  "fst (Setup (one_file ''test.env'' [(''APP_PORT'', '''')]) [''APP_PORT''] [''APP_PORT''] no_rules
      [''test.env''] ([''APP_PORT'' \<mapsto> ''5050''], port_store)) = None \<and>
   supplied (file_values (one_file ''test.env'' [(''APP_PORT'', '''')]) [''test.env'']) ''APP_PORT''
     = Some '''' \<and>
   Get (deref (snd (snd (Setup (one_file ''test.env'' [(''APP_PORT'', '''')]) [''APP_PORT'']
      [''APP_PORT''] no_rules [''test.env''] ([''APP_PORT'' \<mapsto> ''5050''], port_store)))))
      ''APP_PORT'' = ''8080'' \<and>
   claimed_precedence (Some '''') (Getenv [''APP_PORT'' \<mapsto> ''5050''] ''APP_PORT'')
     (DefaultValue (port_var '''')) \<noteq> ''8080'' \<and>
   claimed_precedence None (Getenv [''APP_PORT'' \<mapsto> ''5050''] ''APP_PORT'')
     (DefaultValue (port_var '''')) \<noteq> ''8080''"
  by (simp add: Setup_def loadEnv_def Overload_def filenamesOrDefault_def loadFile_def one_file_def
      Setenv_def setenv_ok_def port_store_def port_var_def set_Value_def Getenv_def Validate_def
      ValidationErrors_def no_rules_def Get_def Lookup_def deref_def supplied_def takes_effect_def
      file_values_def claimed_precedence_def)

text \<open>
  Claim C1, amended. Take a registered variable that stands under one name only (no other name
  of the store holds the same pointer). After a \<open>Setup\<close> whose load did not fail, the
  environment is the ambient one with the assignments of the override files that take effect
  merged over it, files in the order given and a later assignment replacing an earlier one; and
  the variable has the value of that environment for its name when it is not empty, and its
  default otherwise. In terms of the sources: when the files supply a value that is not empty
  (the last assignment to the name that takes effect), that value wins; when they supply the
  empty string, the default wins, whatever the ambient environment holds; when they supply
  nothing, the ambient environment value wins when it is not empty, and the default otherwise.
  What the files supply for a name is an assignment of the files that takes effect.
\<close>

theorem Setup_precedence:
  assumes run: "Setup readFile loadOrder validateOrder ruleOrder envfiles (env, appConf) =
                    (err, env', appConf')"
    and loaded: "\<forall>msg. err \<noteq> Some (LoadFailure msg)"
    and order: "ranges (ptr_vars appConf) loadOrder"
    and reg: "ptr_vars appConf name = Some p"
    and var: "cells appConf p = Some var"
    and own: "\<forall>other. ptr_vars appConf other = Some p \<longrightarrow> other = name"
  shows "env' = env ++ supplied (file_values readFile envfiles) \<and>
         vars (deref appConf') name =
           Some (var\<lparr>Value := precedence (supplied (file_values readFile envfiles) name) (env name)
                                (DefaultValue var)\<rparr>) \<and>
         Get (deref appConf') name =
           precedence (supplied (file_values readFile envfiles) name) (env name) (DefaultValue var) \<and>
         Get (deref appConf') name =
           (case env' name of
              Some v \<Rightarrow> if v \<noteq> '''' then v else DefaultValue var
            | None \<Rightarrow> DefaultValue var) \<and>
         (\<forall>v. supplied (file_values readFile envfiles) name = Some v \<longrightarrow>
              (name, v) \<in> set (file_values readFile envfiles) \<and> takes_effect name v)"
proof -
  let ?files = "supplied (file_values readFile envfiles)"
  from Setup_loaded [OF run loaded]
  have e: "env' = env ++ ?files" and c: "appConf' = loadEnv_loop env' loadOrder appConf"
    by simp_all
  have v: "vars (deref appConf') name =
      Some (var\<lparr>Value := precedence (?files name) (env name) (DefaultValue var)\<rparr>)"
    unfolding c using loadEnv_loop_own [OF order reg var own, of env']
    by (simp add: e resolve_precedence)
  then have g: "Get (deref appConf') name = precedence (?files name) (env name) (DefaultValue var)"
    by (simp add: Get_def Lookup_def)
  have "precedence (?files name) (env name) (DefaultValue var) =
      (case env' name of
         Some v \<Rightarrow> if v \<noteq> '''' then v else DefaultValue var
       | None \<Rightarrow> DefaultValue var)"
    by (simp add: e precedence_def map_add_def split: option.splits)
  with g have g': "Get (deref appConf') name =
      (case env' name of
         Some v \<Rightarrow> if v \<noteq> '''' then v else DefaultValue var
       | None \<Rightarrow> DefaultValue var)"
    by simp
  have "\<forall>v. ?files name = Some v \<longrightarrow>
      (name, v) \<in> set (file_values readFile envfiles) \<and> takes_effect name v"
    using supplied_Some by blast
  with e v g g' show ?thesis by blast
qed

theorem Setup_precedence_witness:
  "Setup (one_file ''test.env'' [(''APP_PORT'', ''9090'')]) [''APP_PORT''] [''APP_PORT''] no_rules
     [''test.env''] ([''APP_PORT'' \<mapsto> ''5050''], port_store)
     = (None, [''APP_PORT'' \<mapsto> ''9090''],
        \<lparr>ptr_vars = [''APP_PORT'' \<mapsto> 0], cells = [0 \<mapsto> port_var ''9090'']\<rparr>) \<and>
   ranges (ptr_vars port_store) [''APP_PORT''] \<and>
   ptr_vars port_store ''APP_PORT'' = Some 0 \<and>
   cells port_store 0 = Some (port_var '''') \<and>
   {other. ptr_vars port_store other = Some 0} = {''APP_PORT''} \<and>
   supplied (file_values (one_file ''test.env'' [(''APP_PORT'', ''9090'')]) [''test.env'']) ''APP_PORT''
     = Some ''9090'' \<and>
   Get (deref \<lparr>ptr_vars = [''APP_PORT'' \<mapsto> 0], cells = [0 \<mapsto> port_var ''9090'']\<rparr>) ''APP_PORT''
     = ''9090''"
proof -
  have run: "Setup (one_file ''test.env'' [(''APP_PORT'', ''9090'')]) [''APP_PORT''] [''APP_PORT'']
      no_rules [''test.env''] ([''APP_PORT'' \<mapsto> ''5050''], port_store)
      = (None, [''APP_PORT'' \<mapsto> ''9090''],
         \<lparr>ptr_vars = [''APP_PORT'' \<mapsto> 0], cells = [0 \<mapsto> port_var ''9090'']\<rparr>)"
    by (simp add: Setup_def loadEnv_def Overload_def filenamesOrDefault_def loadFile_def
        one_file_def Setenv_def setenv_ok_def port_store_def port_var_def set_Value_def Getenv_def
        Validate_def ValidationErrors_def no_rules_def deref_def)
  have loaded: "\<forall>msg. (None :: setup_error option) \<noteq> Some (LoadFailure msg)"
    by simp
  have order: "ranges (ptr_vars port_store) [''APP_PORT'']"
    by (simp add: ranges_def port_store_def)
  have reg: "ptr_vars port_store ''APP_PORT'' = Some 0"
    and var: "cells port_store 0 = Some (port_var '''')"
    by (simp_all add: port_store_def)
  have own: "\<forall>other. ptr_vars port_store other = Some 0 \<longrightarrow> other = ''APP_PORT''"
    by (simp add: port_store_def)
  have files: "supplied (file_values (one_file ''test.env'' [(''APP_PORT'', ''9090'')])
      [''test.env'']) ''APP_PORT'' = Some ''9090''"
    by (simp add: supplied_def file_values_def one_file_def takes_effect_def)
  from Setup_precedence [OF run loaded order reg var own]
  have "Get (deref \<lparr>ptr_vars = [''APP_PORT'' \<mapsto> 0], cells = [0 \<mapsto> port_var ''9090'']\<rparr>)
      ''APP_PORT'' =
      precedence (supplied (file_values (one_file ''test.env'' [(''APP_PORT'', ''9090'')])
        [''test.env'']) ''APP_PORT'') ([''APP_PORT'' \<mapsto> ''5050''] ''APP_PORT'')
        (DefaultValue (port_var ''''))"
    by blast
  then have "Get (deref \<lparr>ptr_vars = [''APP_PORT'' \<mapsto> 0], cells = [0 \<mapsto> port_var ''9090'']\<rparr>)
      ''APP_PORT'' = ''9090''"
    by (simp add: files precedence_def)
  moreover have "{other. ptr_vars port_store other = Some 0} = {''APP_PORT''}"
    by (auto simp: port_store_def split: if_splits)
  ultimately show ?thesis
    using run order reg var files by blast
qed

section \<open>Setup when an override file cannot be loaded\<close>

text \<open>
  Claim C10. When one of the override files cannot be loaded, \<open>Setup\<close> returns the load error
  wrapped twice (the error is that of a file of the list), and the store it leaves is the store it
  was given: no default is applied, no environment value is copied into a variable, and the result
  is the load error, not a validation result.
\<close>

theorem Setup_load_failure:
  assumes "f \<in> set envfiles" and "readFile f = Inl e"
  shows "\<exists>msg env'.
           Setup readFile loadOrder validateOrder ruleOrder envfiles (env, appConf) =
             (Some (LoadFailure (''Failed to set Application Configuration: '' @
                      ''Failed to overload variables with envfile(s): '' @ msg)), env', appConf) \<and>
           (\<exists>g \<in> set envfiles. readFile g = Inl msg)"
proof -
  from loadEnv_fails [where readFile = readFile and f = f and e = e and env = env
      and varOrder = loadOrder and appConf = appConf, OF assms]
  obtain msg env'
    where l: "loadEnv readFile loadOrder envfiles (env, appConf) =
           (Some (''Failed to overload variables with envfile(s): '' @ msg), env', appConf)"
      and g: "\<exists>g \<in> set envfiles. readFile g = Inl msg" by blast
  have "Setup readFile loadOrder validateOrder ruleOrder envfiles (env, appConf) =
             (Some (LoadFailure (''Failed to set Application Configuration: '' @
                      ''Failed to overload variables with envfile(s): '' @ msg)), env', appConf)"
    by (simp add: Setup_def l Wrap_def)
  with g show ?thesis by blast
qed

theorem Setup_load_failure_witness:
  "''AfileThatDoesNotExists'' \<in> set [''AfileThatDoesNotExists''] \<and>
   one_file ''test.env'' [] ''AfileThatDoesNotExists''
     = Inl ''open AfileThatDoesNotExists: no such file or directory'' \<and>
   Setup (one_file ''test.env'' []) [''APP_PORT''] [''APP_PORT''] no_rules [''AfileThatDoesNotExists'']
     ([''APP_PORT'' \<mapsto> ''5050''], port_store)
     = (Some (LoadFailure (''Failed to set Application Configuration: '' @
           ''Failed to overload variables with envfile(s): '' @
           ''open AfileThatDoesNotExists: no such file or directory'')),
        [''APP_PORT'' \<mapsto> ''5050''], port_store) \<and>
   cells port_store 0 = Some (port_var '''')"
  using Setup_load_failure [of "''AfileThatDoesNotExists''" "[''AfileThatDoesNotExists'']"
      "one_file ''test.env'' []" "''open AfileThatDoesNotExists: no such file or directory''"
      "[''APP_PORT'']" "[''APP_PORT'']" no_rules "[''APP_PORT'' \<mapsto> ''5050'']" port_store]
  by (simp add: Setup_def loadEnv_def Overload_def filenamesOrDefault_def loadFile_def one_file_def
      Wrap_def port_store_def)

section \<open>Validate\<close>

text \<open>
  Claim C3. \<open>Validate\<close> is to report every failing rule of every variable under the key
  \<open>name = value\<close> of the variable. Two variables can have the same key: in
  \<open>collide_store\<close> the variable \<open>A = \<close> is empty and has the rule \<open>Required\<close>, which
  refuses it, and the variable \<open>A\<close> has the value \<open> = \<close>, which its rule
  \<open>Valid environment\<close> refuses; both keys are the string \<open>A =  = \<close>. The variable ranged
  over last writes its errors over those of the other: the errors \<open>Validate\<close> returns have
  one entry, which names \<open>Valid environment\<close> alone in one order of the range and
  \<open>Required\<close> alone in the other. A failure of a rule is lost in either order.
\<close>

theorem Validate_key_collision:
  "var_key ''A = '' '''' = ''A =  = '' \<and>
   var_key ''A'' '' = '' = ''A =  = '' \<and>
   map_option Value (vars collide_store ''A = '') = Some '''' \<and>
   map_option Value (vars collide_store ''A'') = Some '' = '' \<and>
   Required '''' = Some ''cannot be blank'' \<and>
   In_rule ValidEnvironments '' = '' = Some ''must be a valid value'' \<and>
   Validate [''A = '', ''A''] collide_rule_order collide_store =
     Some [''A =  = '' \<mapsto> [''Valid environment'' \<mapsto> ''must be a valid value'']] \<and>
   Validate [''A'', ''A = ''] collide_rule_order collide_store =
     Some [''A =  = '' \<mapsto> [''Required'' \<mapsto> ''cannot be blank'']]"
  by (simp add: collide_store_def collide_rule_order_def Validate_def ValidationErrors_def
      Filter_def var_key_def Required_def In_rule_def ValidEnvironments_def)

section \<open>The error field\<close>

lemma cut_lines_nonempty: "cut_lines s \<noteq> []"
  by (induction s) (auto split: list.splits)

lemma Join_Cons: "ps \<noteq> [] \<Longrightarrow> Join (p # ps) sep = p @ sep @ Join ps sep"
  by (cases ps) auto

lemma newline_pieces_nonempty: "newline_pieces s \<noteq> []"
  by (simp add: newline_pieces_def)

lemma newline_pieces_LF:
  "newline_pieces (CHR 0x0A # cs) = [] # newline_pieces cs"
  using cut_lines_nonempty [of cs]
  by (simp add: newline_pieces_def drop_cr_def)

lemma newline_pieces_CRLF:
  "newline_pieces (CHR 0x0D # CHR 0x0A # cs) = [] # newline_pieces cs"
  using cut_lines_nonempty [of cs]
  by (simp add: newline_pieces_def drop_cr_def)

lemma hd_cut_lines_empty: "hd (cut_lines cs) = [] \<longleftrightarrow> cs = [] \<or> hd cs = CHR 0x0A"
  by (cases cs) (auto split: list.splits)

lemma newline_pieces_other:
  assumes "c \<noteq> CHR 0x0A" and "\<not> (c = CHR 0x0D \<and> cs \<noteq> [] \<and> hd cs = CHR 0x0A)"
  shows "newline_pieces (c # cs) = (c # hd (newline_pieces cs)) # tl (newline_pieces cs)"
proof -
  obtain l ls where ls: "cut_lines cs = l # ls"
    using cut_lines_nonempty [of cs] by (cases "cut_lines cs") auto
  with assms have cut: "cut_lines (c # cs) = (c # l) # ls" by simp
  show ?thesis
  proof (cases ls)
    case Nil
    then show ?thesis
      using assms by (simp add: newline_pieces_def ls)
  next
    case (Cons m ms)
    have "cs \<noteq> []" using ls Cons by auto
    have "drop_cr (c # l) = c # drop_cr l"
    proof (cases "l = []")
      case True
      then have "hd cs = CHR 0x0A" using ls hd_cut_lines_empty [of cs] \<open>cs \<noteq> []\<close> by simp
      with assms \<open>cs \<noteq> []\<close> have "c \<noteq> CHR 0x0D" by auto
      with True show ?thesis by (simp add: drop_cr_def)
    next
      case False
      then show ?thesis by (simp add: drop_cr_def)
    qed
    then show ?thesis
      using assms by (simp add: newline_pieces_def ls Cons)
  qed
qed

lemma Join_hd_Cons:
  "ps \<noteq> [] \<Longrightarrow> Join ((c # hd ps) # tl ps) sep = c # Join ps sep"
  by (cases ps; cases "tl ps") auto

lemma replace_newlines_Join:
  "replace_newlines s = Join (newline_pieces s) '' --- ''"
proof (induction s rule: replace_newlines.induct)
  case 1
  show ?case by (simp add: newline_pieces_def)
next
  case (2 c cs)
  show ?case
  proof (cases "c = CHR 0x0D \<and> cs \<noteq> [] \<and> hd cs = CHR 0x0A")
    case True
    then obtain ds where cs: "cs = CHR 0x0A # ds" by (cases cs) auto
    from True 2 have "replace_newlines ds = Join (newline_pieces ds) '' --- ''"
      by (simp add: cs)
    then show ?thesis
      using True newline_pieces_nonempty [of ds]
      by (simp add: cs newline_pieces_CRLF Join_Cons)
  next
    case notcrlf: False
    show ?thesis
    proof (cases "c = CHR 0x0A")
      case True
      with notcrlf 2 have "replace_newlines cs = Join (newline_pieces cs) '' --- ''"
        by simp
      then show ?thesis
        using True newline_pieces_nonempty [of cs]
        by (simp add: newline_pieces_LF Join_Cons)
    next
      case False
      with notcrlf 2 have "replace_newlines cs = Join (newline_pieces cs) '' --- ''"
        by simp
      moreover have "replace_newlines (c # cs) = c # replace_newlines cs"
        using notcrlf False by simp
      ultimately show ?thesis
        using newline_pieces_other [OF False notcrlf] newline_pieces_nonempty [of cs]
        by (simp add: Join_hd_Cons)
    qed
  qed
qed

lemma replace_newlines_no_LF: "CHR 0x0A \<notin> set (replace_newlines s)"
  by (induction s rule: replace_newlines.induct) auto

lemma remove_tabs_filter: "remove_tabs s = filter (\<lambda>c. c \<noteq> CHR 0x09) s"
  by (induction s) (simp_all add: remove_tabs_def)

lemma parseError_one_line:
  "err_Unwrap e = Some u \<Longrightarrow> formatErrors l \<Longrightarrow> parseError l (Some e) = one_line (err_PlusV u)"
  by (simp add: parseError_def one_line_def replace_newlines_Join remove_tabs_filter)

lemma one_line_no_TAB: "CHR 0x09 \<notin> set (one_line s)"
  by (simp add: one_line_def)

lemma one_line_no_LF: "CHR 0x0A \<notin> set (one_line s)"
  using replace_newlines_no_LF [of s]
  by (simp add: one_line_def replace_newlines_Join [symmetric])

text \<open>
  Claim C6. \<open>WithError\<close> sets the field \<open>error\<close>, and leaves every other default field as
  it is. The value of the field is the text \<open><nil>\<close> for a nil error; the message of the error
  when it has no inner error to unwrap; the \<open>%+v\<close> text of the inner error when there is one
  and the toggle is off; and, when the toggle is on, that text on one line: every newline
  sequence (a line feed, with the carriage return before it if there is one) replaced by
  \<open> --- \<close> and every tab removed, so that no line feed and no tab is left.
\<close>

theorem WithError_field:
  "WithError h l None ''error'' = Some (VString ''<nil>'') \<and>
   (err_Unwrap e = None \<longrightarrow> WithError h l (Some e) ''error'' = Some (VString (err_Error e))) \<and>
   (\<forall>u. err_Unwrap e = Some u \<and> \<not> formatErrors l \<longrightarrow>
      WithError h l (Some e) ''error'' = Some (VString (err_PlusV u))) \<and>
   (\<forall>u. err_Unwrap e = Some u \<and> formatErrors l \<longrightarrow>
      WithError h l (Some e) ''error'' = Some (VString (one_line (err_PlusV u))) \<and>
      CHR 0x0A \<notin> set (one_line (err_PlusV u)) \<and> CHR 0x09 \<notin> set (one_line (err_PlusV u))) \<and>
   (\<forall>key. key \<noteq> ''error'' \<longrightarrow> WithError h l err key = read_map h (defaultFields l) key)"
proof -
  have "parseError l (Some e) = one_line (err_PlusV u)"
    if "err_Unwrap e = Some u" "formatErrors l" for u
    using that by (rule parseError_one_line)
  then show ?thesis
    by (auto simp: WithError_def parseError_def one_line_no_LF one_line_no_TAB)
qed

lemma getSomething_unwrap:
  "err_Unwrap getSomething = Some (withMessage (errors_New ''Test Error'' getError_stack) ''Cannot get something'')"
  by (simp add: getSomething_def errors_Wrap_def withStack_def)


lemma one_line_getSomething:
  "one_line (err_PlusV (withMessage (errors_New ''Test Error'' getError_stack) ''Cannot get something''))
   = ''Test Error --- logger.getError --- logger_test.go:135 --- Cannot get something''"
  by (simp add: one_line_def replace_newlines_Join [symmetric] withMessage_def errors_New_def
      getError_stack_def)

theorem WithError_field_witness:
  "err_Unwrap (errors_New ''Test error'' getError_stack) = None \<and>
   WithError [Map.empty] (logger_at 0 False) (Some (errors_New ''Test error'' getError_stack)) ''error''
     = Some (VString ''Test error'') \<and>
   err_Unwrap getSomething
     = Some (withMessage (errors_New ''Test Error'' getError_stack) ''Cannot get something'') \<and>
   \<not> formatErrors (logger_at 0 False) \<and>
   WithError [Map.empty] (logger_at 0 False) (Some getSomething) ''error''
     = Some (VString (''Test Error'' @ [CHR 0x0A] @ ''logger.getError'' @ [CHR 0x0A, CHR 0x09] @
          ''logger_test.go:135'' @ [CHR 0x0A] @ ''Cannot get something'')) \<and>
   formatErrors (logger_at 0 True) \<and>
   WithError [Map.empty] (logger_at 0 True) (Some getSomething) ''error''
     = Some (VString ''Test Error --- logger.getError --- logger_test.go:135 --- Cannot get something'') \<and>
   ''level'' \<noteq> ''error'' \<and>
   WithError [[''level'' \<mapsto> VInt 3]] (logger_at 0 True) (Some getSomething) ''level'' = Some (VInt 3)"
  using WithError_field [of "[Map.empty]" "logger_at 0 False" "errors_New ''Test error'' getError_stack"]
    WithError_field [of "[Map.empty]" "logger_at 0 False" getSomething]
    WithError_field [of "[Map.empty]" "logger_at 0 True" getSomething]
    WithError_field [of "[[''level'' \<mapsto> VInt 3]]" "logger_at 0 True" getSomething "Some getSomething"]
  by (simp add: getSomething_unwrap one_line_getSomething)
    (simp add: logger_at_def errors_New_def withMessage_def getError_stack_def read_map_def)

section \<open>Component loggers\<close>

lemma length_map_assign [simp]: "length (map_assign h a key v) = length h"
  by (simp add: map_assign_def)

lemma read_map_map_assign_other:
  "r \<noteq> Some a \<Longrightarrow> read_map (map_assign h a key v) r = read_map h r"
  by (auto simp: read_map_def map_assign_def split: option.splits)

lemma read_map_map_delete_other:
  "r \<noteq> Some a \<Longrightarrow> read_map (map_delete h a key) r = read_map h r"
  by (auto simp: read_map_def map_delete_def split: option.splits)

lemma read_map_map_assign_same:
  "a < length h \<Longrightarrow> read_map (map_assign h a key v) (Some a) = (read_map h (Some a))(key \<mapsto> v)"
  by (simp add: read_map_def map_assign_def)

lemma copy_fields_length [simp]: "length (copy_fields h src ks a) = length h"
  by (induction ks arbitrary: h) (auto split: option.splits)

lemma copy_fields_other:
  "r \<noteq> Some a \<Longrightarrow> read_map (copy_fields h src ks a) r = read_map h r"
  by (induction ks arbitrary: h) (auto simp: read_map_map_assign_other split: option.splits)

lemma copy_fields_new:
  assumes "a < length h" and "src \<noteq> Some a"
  shows "read_map (copy_fields h src ks a) (Some a) k =
           (if k \<in> set ks \<and> read_map h src k \<noteq> None then read_map h src k
            else read_map h (Some a) k)"
  using assms
proof (induction ks arbitrary: h)
  case Nil
  then show ?case by simp
next
  case (Cons key ks)
  show ?case
  proof (cases "read_map h src key")
    case None
    then show ?thesis using Cons by auto
  next
    case (Some v)
    let ?h = "map_assign h a key v"
    have src: "read_map ?h src = read_map h src"
      using Cons.prems by (simp add: read_map_map_assign_other)
    have new: "read_map ?h (Some a) = (read_map h (Some a))(key \<mapsto> v)"
      using Cons.prems by (simp add: read_map_map_assign_same)
    have "read_map (copy_fields h src (key # ks) a) (Some a) k =
        read_map (copy_fields ?h src ks a) (Some a) k"
      using Some by simp
    also have "\<dots> = (if k \<in> set ks \<and> read_map ?h src k \<noteq> None then read_map ?h src k
            else read_map ?h (Some a) k)"
      using Cons.prems by (intro Cons.IH) simp_all
    finally show ?thesis
      using Some by (auto simp: src new)
  qed
qed

lemma read_map_append:
  "valid_ref h r \<Longrightarrow> read_map (h @ [m]) r = read_map h r"
  by (auto simp: read_map_def valid_ref_def nth_append split: option.splits)

lemma NewComponentLogger_api:
  "NewComponentLogger Map.empty [''component''] [api_fields] (logger_at 0 False) ''db'' =
     ([api_fields, [''component'' \<mapsto> VString ''db'']], logger_at 1 False)"
  by (simp add: NewComponentLogger_def new_map_def NewLogger_def logger_at_def api_fields_def
      read_map_def map_assign_def isFormatErrors_def Getenv_def ParseBool_def)

text \<open>
  A parent that has a \<open>component\<close> field already (a component logger, from which
  \<open>NewGormLogger\<close> derives another) gets no additional entry in the child: the child has the
  keys of the parent, and the parent's \<open>component\<close> entry is not among the entries of the
  child.
\<close>

theorem NewComponentLogger_fields_counterexample:
  "NewComponentLogger Map.empty [''component''] [api_fields] (logger_at 0 False) ''db'' =
     ([api_fields, [''component'' \<mapsto> VString ''db'']], logger_at 1 False) \<and>
   read_map [api_fields] (defaultFields (logger_at 0 False)) = api_fields \<and>
   read_map [api_fields, [''component'' \<mapsto> VString ''db'']] (defaultFields (logger_at 1 False))
     = [''component'' \<mapsto> VString ''db''] \<and>
   \<not> (api_fields \<subseteq>\<^sub>m [''component'' \<mapsto> VString ''db'']) \<and>
   dom [''component'' \<mapsto> VString ''db''] = dom api_fields"
  by (simp add: NewComponentLogger_api)
    (simp add: logger_at_def api_fields_def read_map_def map_le_def)

text \<open>
  Claim C7, amended. The default fields of the child are the fields of the parent at derivation
  time with the key \<open>component\<close> set to the component name: every entry of the parent and
  exactly one additional entry when the parent has no \<open>component\<close> field, and the parent's
  \<open>component\<close> entry replaced when it has one. The child's map is a new map: the parent's map
  is as it was, and an assignment to, or a deletion from, the parent's map after the derivation
  leaves the fields of the child as they are. The child wraps the same \<open>FieldLogger\<close> and has
  the parent's slow threshold and level.
\<close>

theorem NewComponentLogger_fields:
  assumes valid: "valid_ref h (defaultFields l)"
    and order: "ranges (read_map h (defaultFields l)) fieldOrder"
    and run: "NewComponentLogger env fieldOrder h l componentName = (h', child)"
  shows "read_map h' (defaultFields child) =
           (read_map h (defaultFields l))(''component'' \<mapsto> VString componentName) \<and>
         (''component'' \<notin> dom (read_map h (defaultFields l)) \<longrightarrow>
            read_map h (defaultFields l) \<subseteq>\<^sub>m read_map h' (defaultFields child) \<and>
            added_entries (read_map h (defaultFields l)) (read_map h' (defaultFields child)) =
              {(''component'', VString componentName)}) \<and>
         read_map h' (defaultFields l) = read_map h (defaultFields l) \<and>
         valid_ref h' (defaultFields child) \<and> defaultFields child \<noteq> defaultFields l \<and>
         (\<forall>p key v. defaultFields l = Some p \<longrightarrow>
            read_map (map_assign h' p key v) (defaultFields child) = read_map h' (defaultFields child) \<and>
            read_map (map_delete h' p key) (defaultFields child) = read_map h' (defaultFields child)) \<and>
         log child = log l \<and>
         SlowThreshold (gormConf child) = SlowThreshold (gormConf l) \<and>
         LogLevel (gormConf child) = LogLevel (gormConf l)"
proof -
  let ?a = "length h"
  let ?h1 = "h @ [Map.empty]"
  let ?h2 = "copy_fields ?h1 (defaultFields l) fieldOrder ?a"
  let ?parent = "read_map h (defaultFields l)"
  let ?v = "VString componentName"
  from valid have src: "defaultFields l \<noteq> Some ?a"
    by (auto simp: valid_ref_def)
  have h': "h' = map_assign ?h2 ?a ''component'' ?v"
    and child: "defaultFields child = Some ?a"
    and same: "log child = log l" "SlowThreshold (gormConf child) = SlowThreshold (gormConf l)"
      "LogLevel (gormConf child) = LogLevel (gormConf l)"
    using run by (auto simp: NewComponentLogger_def new_map_def NewLogger_def Let_def)
  have p1: "read_map ?h1 (defaultFields l) = ?parent"
    using valid by (rule read_map_append)
  have "read_map ?h2 (Some ?a) k = ?parent k" for k
  proof -
    have "read_map ?h2 (Some ?a) k =
        (if k \<in> set fieldOrder \<and> read_map ?h1 (defaultFields l) k \<noteq> None
         then read_map ?h1 (defaultFields l) k else read_map ?h1 (Some ?a) k)"
      using src by (intro copy_fields_new) simp_all
    moreover have "read_map ?h1 (Some ?a) k = None"
      by (simp add: read_map_def)
    moreover have "k \<in> set fieldOrder \<longleftrightarrow> ?parent k \<noteq> None"
      using order by (auto simp: ranges_def)
    ultimately show ?thesis by (auto simp: p1)
  qed
  then have copy: "read_map ?h2 (Some ?a) = ?parent" by (rule ext)
  have c: "read_map h' (defaultFields child) = ?parent(''component'' \<mapsto> ?v)"
    by (simp add: h' child read_map_map_assign_same copy)
  have par: "read_map h' (defaultFields l) = ?parent"
    using src by (simp add: h' read_map_map_assign_other copy_fields_other p1)
  have val: "valid_ref h' (defaultFields child)"
    by (simp add: h' child valid_ref_def)
  have ne: "defaultFields child \<noteq> defaultFields l"
    using src by (simp add: child)
  have mut: "read_map (map_assign h' p key v) (defaultFields child) = read_map h' (defaultFields child) \<and>
      read_map (map_delete h' p key) (defaultFields child) = read_map h' (defaultFields child)"
    if "defaultFields l = Some p" for p key v
    using that ne by (simp add: read_map_map_assign_other read_map_map_delete_other)
  have fresh: "?parent \<subseteq>\<^sub>m read_map h' (defaultFields child) \<and>
      added_entries ?parent (read_map h' (defaultFields child)) = {(''component'', ?v)}"
    if "''component'' \<notin> dom ?parent"
    using that unfolding c by (auto simp: map_le_def added_entries_def split: if_splits)
  from c par val ne mut fresh same show ?thesis by blast
qed

lemma NewComponentLogger_test:
  "NewComponentLogger Map.empty [''Field3'', ''Field1'', ''Field2''] [test_fields] (logger_at 0 False)
     ''test-device'' =
     ([test_fields, test_fields(''component'' \<mapsto> VString ''test-device'')], logger_at 1 False)"
  by (simp add: NewComponentLogger_def new_map_def NewLogger_def logger_at_def test_fields_def
      read_map_def map_assign_def isFormatErrors_def Getenv_def ParseBool_def)
    (auto simp: fun_eq_iff)

theorem NewComponentLogger_fields_witness:
  "valid_ref [test_fields] (defaultFields (logger_at 0 False)) \<and>
   ranges (read_map [test_fields] (defaultFields (logger_at 0 False))) [''Field3'', ''Field1'', ''Field2''] \<and>
   NewComponentLogger Map.empty [''Field3'', ''Field1'', ''Field2''] [test_fields] (logger_at 0 False)
     ''test-device'' =
     ([test_fields, test_fields(''component'' \<mapsto> VString ''test-device'')], logger_at 1 False) \<and>
   read_map [test_fields, test_fields(''component'' \<mapsto> VString ''test-device'')]
     (defaultFields (logger_at 1 False)) = test_fields(''component'' \<mapsto> VString ''test-device'') \<and>
   ''component'' \<notin> dom (read_map [test_fields] (defaultFields (logger_at 0 False))) \<and>
   added_entries test_fields (test_fields(''component'' \<mapsto> VString ''test-device''))
     = {(''component'', VString ''test-device'')} \<and>
   defaultFields (logger_at 0 False) = Some 0 \<and>
   read_map (map_assign [test_fields, test_fields(''component'' \<mapsto> VString ''test-device'')] 0
       ''Field1'' (VString ''changed'')) (defaultFields (logger_at 0 False)) ''Field1''
     = Some (VString ''changed'') \<and>
   read_map (map_assign [test_fields, test_fields(''component'' \<mapsto> VString ''test-device'')] 0
       ''Field1'' (VString ''changed'')) (defaultFields (logger_at 1 False)) ''Field1''
     = Some (VString ''Value1'')"
proof -
  have v: "valid_ref [test_fields] (defaultFields (logger_at 0 False))"
    by (simp add: valid_ref_def logger_at_def)
  have r: "read_map [test_fields] (defaultFields (logger_at 0 False)) = test_fields"
    by (simp add: read_map_def logger_at_def)
  have o: "ranges (read_map [test_fields] (defaultFields (logger_at 0 False)))
      [''Field3'', ''Field1'', ''Field2'']"
    unfolding r by (auto simp: ranges_def test_fields_def split: if_splits)
  have c: "''component'' \<notin> dom (read_map [test_fields] (defaultFields (logger_at 0 False)))"
    unfolding r by (simp add: test_fields_def)
  have d: "defaultFields (logger_at 0 False) = Some 0"
    by (simp add: logger_at_def)
  note T = NewComponentLogger_fields [OF v o NewComponentLogger_test]
  from T c have "added_entries test_fields
      (read_map [test_fields, test_fields(''component'' \<mapsto> VString ''test-device'')]
        (defaultFields (logger_at 1 False))) = {(''component'', VString ''test-device'')}"
    unfolding r by blast
  moreover from T have "read_map [test_fields, test_fields(''component'' \<mapsto> VString ''test-device'')]
     (defaultFields (logger_at 1 False)) = test_fields(''component'' \<mapsto> VString ''test-device'')"
    unfolding r by blast
  moreover from T d have "read_map (map_assign [test_fields, test_fields(''component'' \<mapsto> VString ''test-device'')] 0
       ''Field1'' (VString ''changed'')) (defaultFields (logger_at 1 False))
     = read_map [test_fields, test_fields(''component'' \<mapsto> VString ''test-device'')]
         (defaultFields (logger_at 1 False))"
    by blast
  moreover have "read_map (map_assign [test_fields, test_fields(''component'' \<mapsto> VString ''test-device'')] 0
       ''Field1'' (VString ''changed'')) (defaultFields (logger_at 0 False)) ''Field1''
     = Some (VString ''changed'')"
    by (simp add: read_map_def map_assign_def logger_at_def)
  moreover have "(test_fields(''component'' \<mapsto> VString ''test-device'')) ''Field1'' = Some (VString ''Value1'')"
    by (simp add: test_fields_def)
  ultimately show ?thesis
    using v o c d NewComponentLogger_test by simp
qed

section \<open>The sample file as an override file\<close>












end
